theory Spec2Isabelle
  imports Main
begin

section \<open>gin/tf/utils.py: the per-graph singleton and the config saver hook\<close>

text \<open>
  The module is glue between Gin and TensorFlow. Its own code is embedded as written;
  every service it calls (Gin's registry and operative config, the gfile filesystem, the
  session, the summary writers) is state of an explicit environment, and a call that can
  raise returns a sum, \<open>Inl\<close> carrying the error, next to the state it left behind.
\<close>

subsection \<open>Computations that read and write a state and may raise\<close>

datatype error =
    ConstructorError
  | MakedirsError
  | SessionRunError
  | NotFoundError
  | GFileError
  | SummaryBuildError
  | WriterCacheError
  | AddSummaryError
  | FlushError

type_synonym ('s, 'a) comp = "'s \<Rightarrow> (error + 'a) \<times> 's"

definition done_with :: "'a \<Rightarrow> ('s, 'a) comp" where
  "done_with x = (\<lambda>s. (Inr x, s))"

definition and_then :: "('s, 'a) comp \<Rightarrow> ('a \<Rightarrow> ('s, 'b) comp) \<Rightarrow> ('s, 'b) comp" where
  "and_then m f = (\<lambda>s. case m s of (Inl e, s') \<Rightarrow> (Inl e, s') | (Inr x, s') \<Rightarrow> f x s')"

subsection \<open>singleton_per_graph\<close>

text \<open>
  A graph is known by its identity only. The Gin side of the environment holds the
  current scope string, the default graph and the registry of singletons; \<open>user\<close> is
  whatever state the constructor itself works on, and \<open>constructed\<close> counts the
  constructor invocations made by the registry. A constructor is any callable without
  arguments: it may change the state it works on, it returns an object or raises, and
  nothing makes it return a new object each time.
\<close>

type_synonym graph = nat

record ('v, 'u) gin =
  current_scope_str :: string
  default_graph :: graph
  singletons :: "(string \<times> graph) \<rightharpoonup> 'v"
  user :: 'u
  constructed :: nat

type_synonym ('v, 'u) constructor = "'u \<Rightarrow> (error + 'v) \<times> 'u"

text \<open>
  Modelled from the spec: \<open>config.singleton_value\<close> of gin/config.py, which is not among
  the sources. The first call for a key invokes the constructor and stores the result in
  the registry; a later call with the same key returns the stored instance and does not
  invoke the constructor; a failure of the constructor propagates, and nothing is stored.
\<close>

definition singleton_value ::
  "string \<times> graph \<Rightarrow> ('v, 'u) constructor \<Rightarrow> (('v, 'u) gin, 'v) comp" where
  "singleton_value key constructor = (\<lambda>s.
     case singletons s key of
       Some v \<Rightarrow> (Inr v, s)
     | None \<Rightarrow>
         (case constructor (user s) of
            (Inl e, u) \<Rightarrow> (Inl e, s\<lparr>user := u, constructed := Suc (constructed s)\<rparr>)
          | (Inr v, u) \<Rightarrow>
              (Inr v, s\<lparr>singletons := (singletons s)(key \<mapsto> v), user := u,
                          constructed := Suc (constructed s)\<rparr>)))"

definition singleton_per_graph :: "('v, 'u) constructor \<Rightarrow> (('v, 'u) gin, 'v) comp" where
  "singleton_per_graph constructor = (\<lambda>s.
     let key = (current_scope_str s, default_graph s)
     in singleton_value key constructor s)"

text \<open>Entering another graph (\<open>with graph.as_default()\<close>) changes the default graph only.\<close>

definition as_default :: "graph \<Rightarrow> ('v, 'u) gin \<Rightarrow> ('v, 'u) gin" where
  "as_default g s = s\<lparr>default_graph := g\<rparr>"

text \<open>
  What the rest of the program does between two calls: it enters a scope and a graph and
  asks for the singleton there, any number of times. \<open>in_scope\<close> returns to a scope and
  a graph.
\<close>

definition request :: "string \<times> graph \<times> ('v, 'u) constructor \<Rightarrow> ('v, 'u) gin \<Rightarrow> ('v, 'u) gin" where
  "request r s =
     (case r of (scope, g, constructor) \<Rightarrow>
        snd (singleton_per_graph constructor (s\<lparr>current_scope_str := scope, default_graph := g\<rparr>)))"

definition requests :: "(string \<times> graph \<times> ('v, 'u) constructor) list \<Rightarrow> ('v, 'u) gin \<Rightarrow> ('v, 'u) gin" where
  "requests rs s = foldl (\<lambda>s r. request r s) s rs"

definition in_scope :: "string \<Rightarrow> graph \<Rightarrow> ('v, 'u) gin \<Rightarrow> ('v, 'u) gin" where
  "in_scope scope g s = s\<lparr>current_scope_str := scope, default_graph := g\<rparr>"

text \<open>A constructor that hands out a new object at every call: the objects are numbered.\<close>

definition fresh_object :: "(nat, nat) constructor" where
  "fresh_object = (\<lambda>n. (Inr n, Suc n))"

text \<open>A constructor that returns one and the same, already existing object.\<close>

definition shared_object :: "nat \<Rightarrow> (nat, nat) constructor" where
  "shared_object x = (\<lambda>n. (Inr x, n))"

definition gin0 :: "(nat, nat) gin" where
  "gin0 = \<lparr>current_scope_str = ''train'', default_graph = 1, singletons = Map.empty,
          user = 0, constructed = 0\<rparr>"

subsection \<open>Strings: \<open>%s\<close> formatting of a step and \<open>os.path.join\<close>\<close>

text \<open>
  \<open>'%s' % n\<close> for an integer is \<open>str(n)\<close>: the decimal digits, most significant first,
  after a minus sign when \<open>n\<close> is negative.
\<close>

definition digit_char :: "nat \<Rightarrow> char" where
  "digit_char d = ''0123456789'' ! d"

function str_nat :: "nat \<Rightarrow> string" where
  "str_nat n = (if n < 10 then [digit_char n] else str_nat (n div 10) @ [digit_char (n mod 10)])"
  by pat_completeness auto
termination
  by (relation "measure id") auto

declare str_nat.simps [simp del]

definition str_int :: "int \<Rightarrow> string" where
  "str_int i = (if i < 0 then CHR ''-'' # str_nat (nat (- i)) else str_nat (nat i))"

text \<open>
  \<open>posixpath.join\<close> with one component: a component that starts with the separator
  replaces the path; after an empty path or one that ends with the separator the component
  is appended as it is; otherwise a separator goes between the two.
\<close>

definition startswith_sep :: "string \<Rightarrow> bool" where
  "startswith_sep b = (case b of [] \<Rightarrow> False | c # _ \<Rightarrow> c = CHR ''/'')"

definition endswith_sep :: "string \<Rightarrow> bool" where
  "endswith_sep a = (case rev a of [] \<Rightarrow> False | c # _ \<Rightarrow> c = CHR ''/'')"

definition os_path_join :: "string \<Rightarrow> string \<Rightarrow> string" where
  "os_path_join a b =
     (if startswith_sep b then b
      else if a = [] \<or> endswith_sep a then a @ b
      else a @ ''/'' @ b)"

text \<open>
  \<open>posixpath.dirname\<close>: the path up to its last separator, without the separators at
  the end of that, unless it consists of separators only.
\<close>

definition rstrip_sep :: "string \<Rightarrow> string" where
  "rstrip_sep p = rev (dropWhile (\<lambda>c. c = CHR ''/'') (rev p))"

definition os_path_dirname :: "string \<Rightarrow> string" where
  "os_path_dirname p =
     (let head = rev (dropWhile (\<lambda>c. c \<noteq> CHR ''/'') (rev p))
      in if head \<noteq> [] \<and> \<not> (\<forall>c \<in> set head. c = CHR ''/'') then rstrip_sep head else head)"

subsection \<open>The environment of the hook\<close>

type_synonym path = string
type_synonym tensor = nat

text \<open>
  A session is known by what \<open>session.run\<close> returns for a tensor; a tensor that the
  session cannot run has no value, and running it raises.
\<close>

type_synonym session = "tensor \<rightharpoonup> int"

text \<open>
  A summary writer is either the \<open>FileWriter\<close> that \<open>FileWriterCache\<close> keeps for a
  directory, or an object supplied by the caller, known by its identity and by its truth
  value (\<open>bool(obj)\<close>). A \<open>FileWriter\<close> defines neither \<open>__bool__\<close> nor \<open>__len__\<close>, so
  it is true.
\<close>

datatype writer = CachedWriter path | SuppliedWriter nat bool

fun truth :: "writer option \<Rightarrow> bool" where
  "truth None = False"
| "truth (Some (CachedWriter d)) = True"
| "truth (Some (SuppliedWriter i b)) = b"

text \<open>One value of a \<open>Summary\<close> protocol message, with the metadata of its plugin.\<close>

record summary_value =
  tag :: string
  plugin_name :: string
  plugin_content :: string
  tensor_proto :: string

type_synonym summary = "summary_value list"

text \<open>The calls that changed the world outside of the hook, in the order they were made.\<close>

datatype call =
    Makedirs path
  | GFileWrite path string
  | CacheGet path
  | AddSummary writer summary int
  | Flush writer

text \<open>
  \<open>operative_config\<close> is what \<open>config.operative_config_str()\<close> returns, \<open>global_step\<close>
  what \<open>get_global_step()\<close> returns for the default graph. \<open>dirs\<close> and \<open>files\<close> are the
  filesystem behind \<open>tf.io.gfile\<close>, \<open>writer_cache\<close> the directories \<open>FileWriterCache\<close>
  holds a writer for, \<open>events\<close> the summaries added to each writer and \<open>unflushed\<close> how
  many of them are not flushed yet. \<open>failing\<close> names the services that raise when called.
\<close>

record world =
  operative_config :: string
  global_step :: "tensor option"
  dirs :: "path set"
  files :: "path \<rightharpoonup> string"
  writer_cache :: "path set"
  events :: "writer \<Rightarrow> (summary \<times> int) list"
  unflushed :: "writer \<Rightarrow> nat"
  failing :: "error set"
  trace :: "call list"

record hook =
  output_dir :: path
  base_name :: string
  summarize_config :: bool
  summary_writer :: "writer option"
  include_step_in_filename :: bool

type_synonym state = "hook \<times> world"

definition GinConfigSaverHook ::
  "path \<Rightarrow> string \<Rightarrow> bool \<Rightarrow> writer option \<Rightarrow> bool \<Rightarrow> hook" where
  "GinConfigSaverHook out base summarize wr include_step =
     \<lparr>output_dir = out, base_name = base, summarize_config = summarize,
      summary_writer = wr, include_step_in_filename = include_step\<rparr>"

text \<open>The services, each on the world; \<open>in_world\<close> runs one beside the hook object.\<close>

definition in_world :: "(world, 'a) comp \<Rightarrow> (state, 'a) comp" where
  "in_world m = (\<lambda>(h, w). case m w of (r, w') \<Rightarrow> (r, (h, w')))"

text \<open>
  Modelled from the spec: \<open>config.operative_config_str\<close> of gin/config.py, which is not
  among the sources, returns the text of the configuration in effect; and
  \<open>tf.io.gfile.isdir\<close>, the test that a directory exists.
\<close>

definition operative_config_str :: "(world, string) comp" where
  "operative_config_str = (\<lambda>w. (Inr (operative_config w), w))"

definition isdir :: "path \<Rightarrow> (world, bool) comp" where
  "isdir d = (\<lambda>w. (Inr (d \<in> dirs w), w))"

text \<open>
  Modelled from the spec: \<open>tf.io.gfile.makedirs\<close>, recursive directory creation. The
  directory and its parents are the prefixes of the path that end before a separator,
  and the path itself.
\<close>

definition dir_prefixes :: "path \<Rightarrow> path list" where
  "dir_prefixes p = [take i p. i \<leftarrow> [1..<length p], p ! i = CHR ''/''] @ [p]"

definition makedirs :: "path \<Rightarrow> (world, unit) comp" where
  "makedirs d = (\<lambda>w.
     if MakedirsError \<in> failing w then (Inl MakedirsError, w)
     else (Inr (), w\<lparr>dirs := dirs w \<union> set (dir_prefixes d), trace := trace w @ [Makedirs d]\<rparr>))"

text \<open>
  Modelled from the spec: \<open>get_global_step\<close> returns the global step variable of the
  default graph, or \<open>None\<close> when there is none, and \<open>session.run\<close> executes a tensor in
  the session and returns its value.
\<close>

definition get_global_step :: "(world, tensor option) comp" where
  "get_global_step = (\<lambda>w. (Inr (global_step w), w))"

definition session_run :: "session \<Rightarrow> tensor \<Rightarrow> (world, int) comp" where
  "session_run session t = (\<lambda>w.
     case session t of None \<Rightarrow> (Inl SessionRunError, w) | Some v \<Rightarrow> (Inr v, w))"

text \<open>
  Modelled from the spec: opening a \<open>GFile\<close> in mode \<open>'w'\<close>, writing one string and
  closing it. A file is created in a directory that exists: when the directory part of the
  path is not a directory, the opening raises \<open>NotFoundError\<close>; a path with no directory
  part is a file of the working directory. Any other failure is one of the service, taken
  to happen at the opening too, before anything is written. Otherwise the file then holds
  that string and nothing else, whatever it held before.
\<close>

definition no_directory :: "path \<Rightarrow> world \<Rightarrow> bool" where
  "no_directory p w = (os_path_dirname p \<noteq> [] \<and> os_path_dirname p \<notin> dirs w)"

definition gfile_write :: "path \<Rightarrow> string \<Rightarrow> (world, unit) comp" where
  "gfile_write p text = (\<lambda>w.
     if no_directory p w then (Inl NotFoundError, w)
     else if GFileError \<in> failing w then (Inl GFileError, w)
     else (Inr (), w\<lparr>files := (files w)(p \<mapsto> text), trace := trace w @ [GFileWrite p text]\<rparr>))"

text \<open>
  Lines 104 to 113: the markdown text, the metadata of the text plugin, the tensor and
  the summary with its one value. \<open>config.markdown\<close> is not among the sources and is a
  parameter; the tensor made by \<open>make_tensor_proto\<close> is known by the string it carries.
\<close>

definition build_summary :: "(string \<Rightarrow> string) \<Rightarrow> string \<Rightarrow> string \<Rightarrow> (world, summary) comp" where
  "build_summary markdown base config_str = (\<lambda>w.
     if SummaryBuildError \<in> failing w then (Inl SummaryBuildError, w)
     else
       let md_config_str = markdown config_str
       in (Inr [\<lparr>tag = ''gin/'' @ base, plugin_name = ''text'', plugin_content = ''{}'',
                 tensor_proto = md_config_str\<rparr>], w))"

text \<open>
  Modelled from the spec: \<open>FileWriterCache.get\<close>, a cache of writers keyed by directory,
  which creates the writer of a directory at the first request for it.
\<close>

definition FileWriterCache_get :: "path \<Rightarrow> (world, writer) comp" where
  "FileWriterCache_get d = (\<lambda>w.
     if WriterCacheError \<in> failing w then (Inl WriterCacheError, w)
     else (Inr (CachedWriter d),
           w\<lparr>writer_cache := insert d (writer_cache w), trace := trace w @ [CacheGet d]\<rparr>))"

text \<open>
  Modelled from the spec: \<open>add_summary\<close> appends the summary, with its step, to the events
  of the writer, and \<open>flush\<close> writes out what the writer still holds.
\<close>

definition add_summary :: "writer \<Rightarrow> summary \<Rightarrow> int \<Rightarrow> (world, unit) comp" where
  "add_summary wr s step = (\<lambda>w.
     if AddSummaryError \<in> failing w then (Inl AddSummaryError, w)
     else (Inr (), w\<lparr>events := (events w)(wr := events w wr @ [(s, step)]),
                      unflushed := (unflushed w)(wr := Suc (unflushed w wr)),
                      trace := trace w @ [AddSummary wr s step]\<rparr>))"

definition flush :: "writer \<Rightarrow> (world, unit) comp" where
  "flush wr = (\<lambda>w.
     if FlushError \<in> failing w then (Inl FlushError, w)
     else (Inr (), w\<lparr>unflushed := (unflushed w)(wr := 0), trace := trace w @ [Flush wr]\<rparr>))"

text \<open>Reading the hook object, and the assignment to \<open>self._summary_writer\<close>.\<close>

definition self_hook :: "(state, hook) comp" where
  "self_hook = (\<lambda>(h, w). (Inr h, (h, w)))"

definition set_summary_writer :: "writer \<Rightarrow> (state, unit) comp" where
  "set_summary_writer wr = (\<lambda>(h, w). (Inr (), (h\<lparr>summary_writer := Some wr\<rparr>, w)))"

subsection \<open>GinConfigSaverHook.after_create_session\<close>

text \<open>Lines 90 to 94: the step is 0 unless there is a session and a global step to run.\<close>

definition global_step_val :: "session option \<Rightarrow> (world, int) comp" where
  "global_step_val session =
     (case session of
        None \<Rightarrow> done_with 0
      | Some sess \<Rightarrow>
          and_then get_global_step (\<lambda>gs.
            case gs of
              None \<Rightarrow> done_with 0
            | Some t \<Rightarrow> session_run sess t))"

text \<open>Lines 95 to 99: the name of the file and its path.\<close>

definition filename :: "hook \<Rightarrow> int \<Rightarrow> string" where
  "filename self step =
     (if include_step_in_filename self then base_name self @ ''-'' @ str_int step @ ''.gin''
      else base_name self @ ''.gin'')"

definition config_path :: "hook \<Rightarrow> int \<Rightarrow> path" where
  "config_path self step = os_path_join (output_dir self) (filename self step)"

text \<open>
  Reading \<open>self._summary_writer\<close> for a method call on it; on \<open>None\<close> the attribute
  lookup raises, which is counted as a failure of the addition.
\<close>

definition the_summary_writer :: "(state, writer) comp" where
  "the_summary_writer = (\<lambda>(h, w).
     case summary_writer h of
       None \<Rightarrow> (Inl AddSummaryError, (h, w))
     | Some wr \<Rightarrow> (Inr wr, (h, w)))"

text \<open>
  Lines 104 to 121, the body of \<open>if self._summarize_config\<close>: \<open>self\<close> is the hook as
  the method found it, \<open>config_str\<close> and \<open>step\<close> are the locals set before.
\<close>

definition summarize :: "(string \<Rightarrow> string) \<Rightarrow> hook \<Rightarrow> string \<Rightarrow> int \<Rightarrow> (state, unit) comp" where
  "summarize markdown self config_str step =
     and_then (in_world (build_summary markdown (base_name self) config_str)) (\<lambda>summary.
     and_then (if \<not> truth (summary_writer self)
               then and_then (in_world (FileWriterCache_get (output_dir self)))
                      set_summary_writer
               else done_with ()) (\<lambda>_.
     and_then the_summary_writer (\<lambda>wr.
     and_then (in_world (add_summary wr summary step)) (\<lambda>_.
     and_then the_summary_writer (\<lambda>wr'.
       in_world (flush wr'))))))"

text \<open>
  Lines 85 to 103. The second argument of the method, \<open>coord\<close>, is not used and is left
  out.
\<close>

definition after_create_session ::
  "(string \<Rightarrow> string) \<Rightarrow> session option \<Rightarrow> (state, unit) comp" where
  "after_create_session markdown session =
     and_then self_hook (\<lambda>self.
     and_then (in_world operative_config_str) (\<lambda>config_str.
     and_then (in_world (isdir (output_dir self))) (\<lambda>there.
     and_then (if \<not> there then in_world (makedirs (output_dir self)) else done_with ()) (\<lambda>_.
     and_then (in_world (global_step_val session)) (\<lambda>step.
     and_then (in_world (gfile_write (config_path self step) config_str)) (\<lambda>_.
       if summarize_config self then summarize markdown self config_str step
       else done_with ()))))))"

text \<open>The outcome of one invocation, the hook object after it and the world after it.\<close>

abbreviation outcome :: "(string \<Rightarrow> string) \<Rightarrow> session option \<Rightarrow> hook \<Rightarrow> world \<Rightarrow> error + unit" where
  "outcome markdown session h w \<equiv> fst (after_create_session markdown session (h, w))"

abbreviation hook_after :: "(string \<Rightarrow> string) \<Rightarrow> session option \<Rightarrow> hook \<Rightarrow> world \<Rightarrow> hook" where
  "hook_after markdown session h w \<equiv> fst (snd (after_create_session markdown session (h, w)))"

abbreviation world_after :: "(string \<Rightarrow> string) \<Rightarrow> session option \<Rightarrow> hook \<Rightarrow> world \<Rightarrow> world" where
  "world_after markdown session h w \<equiv> snd (snd (after_create_session markdown session (h, w)))"

text \<open>
  The host may call the hook again and again. Between two invocations the sessions differ
  and so do the services that fail; the hook object and the rest of the world carry over.
\<close>

fun invocations ::
  "(string \<Rightarrow> string) \<Rightarrow> (session option \<times> error set) list \<Rightarrow> state \<Rightarrow> state" where
  "invocations markdown [] s = s"
| "invocations markdown ((session, fs) # rest) (h, w) =
     invocations markdown rest (snd (after_create_session markdown session (h, w\<lparr>failing := fs\<rparr>)))"

fun is_cache_get :: "call \<Rightarrow> bool" where
  "is_cache_get (CacheGet d) = True"
| "is_cache_get c = False"

fun is_summary_call :: "call \<Rightarrow> bool" where
  "is_summary_call (CacheGet d) = True"
| "is_summary_call (AddSummary wr s n) = True"
| "is_summary_call (Flush wr) = True"
| "is_summary_call c = False"

definition cache_gets :: "world \<Rightarrow> nat" where
  "cache_gets w = length (filter is_cache_get (trace w))"

subsection \<open>The states an invocation passes through\<close>

text \<open>
  The same method as a straight line: the world after the directory is made sure of, after
  the file is written, after the writer is fetched, after the summary is added and after
  the flush, with the writer that is used and the summary that is added. The lemmas
  \<open>summarize_eq\<close> and \<open>save_eq\<close> below prove that \<open>after_create_session\<close> passes through
  exactly these states.
\<close>

definition after_makedirs :: "hook \<Rightarrow> world \<Rightarrow> world" where
  "after_makedirs h w =
     (if output_dir h \<in> dirs w then w
      else w\<lparr>dirs := dirs w \<union> set (dir_prefixes (output_dir h)),
             trace := trace w @ [Makedirs (output_dir h)]\<rparr>)"

definition after_write :: "hook \<Rightarrow> int \<Rightarrow> world \<Rightarrow> world" where
  "after_write h step w =
     (after_makedirs h w)
       \<lparr>files := (files w)(config_path h step \<mapsto> operative_config w),
        trace := trace (after_makedirs h w) @
          [GFileWrite (config_path h step) (operative_config w)]\<rparr>"

definition text_summary :: "(string \<Rightarrow> string) \<Rightarrow> hook \<Rightarrow> string \<Rightarrow> summary" where
  "text_summary markdown h config_str =
     [\<lparr>tag = ''gin/'' @ base_name h, plugin_name = ''text'', plugin_content = ''{}'',
       tensor_proto = markdown config_str\<rparr>]"

definition writer_in_use :: "hook \<Rightarrow> writer" where
  "writer_in_use h =
     (case summary_writer h of
        None \<Rightarrow> CachedWriter (output_dir h)
      | Some wr \<Rightarrow> if truth (Some wr) then wr else CachedWriter (output_dir h))"

definition hook_with_writer :: "hook \<Rightarrow> hook" where
  "hook_with_writer h =
     (if truth (summary_writer h) then h
      else h\<lparr>summary_writer := Some (CachedWriter (output_dir h))\<rparr>)"

definition after_fetch :: "hook \<Rightarrow> world \<Rightarrow> world" where
  "after_fetch h w =
     (if truth (summary_writer h) then w
      else w\<lparr>writer_cache := insert (output_dir h) (writer_cache w),
             trace := trace w @ [CacheGet (output_dir h)]\<rparr>)"

definition after_add :: "(string \<Rightarrow> string) \<Rightarrow> hook \<Rightarrow> string \<Rightarrow> int \<Rightarrow> world \<Rightarrow> world" where
  "after_add markdown h config_str step w =
     (after_fetch h w)
       \<lparr>events := (events w)(writer_in_use h :=
           events w (writer_in_use h) @ [(text_summary markdown h config_str, step)]),
        unflushed := (unflushed w)(writer_in_use h := Suc (unflushed w (writer_in_use h))),
        trace := trace (after_fetch h w) @
           [AddSummary (writer_in_use h) (text_summary markdown h config_str) step]\<rparr>"

definition after_flush :: "(string \<Rightarrow> string) \<Rightarrow> hook \<Rightarrow> string \<Rightarrow> int \<Rightarrow> world \<Rightarrow> world" where
  "after_flush markdown h config_str step w =
     (after_add markdown h config_str step w)
       \<lparr>unflushed := (unflushed w)(writer_in_use h := 0),
        trace := trace (after_add markdown h config_str step w) @ [Flush (writer_in_use h)]\<rparr>"

subsection \<open>A concrete run\<close>

text \<open>
  The scenario of the documentation: the directory \<open>/tmp/run1\<close> does not exist yet, the
  session reports step 100, and every service works.
\<close>

definition session100 :: session where
  "session100 = [0 \<mapsto> 100]"

definition world0 :: world where
  "world0 = \<lparr>operative_config = ''a.b = 1'', global_step = Some 0, dirs = {''/tmp''},
             files = Map.empty, writer_cache = {}, events = (\<lambda>_. []), unflushed = (\<lambda>_. 0),
             failing = {}, trace = []\<rparr>"

definition hook0 :: hook where
  "hook0 = GinConfigSaverHook ''/tmp/run1'' ''operative_config'' True None True"


section \<open>Properties\<close>

subsection \<open>Unfolding the computations\<close>

lemmas service_defs = done_with_def and_then_def in_world_def self_hook_def
  set_summary_writer_def the_summary_writer_def operative_config_str_def isdir_def makedirs_def
  get_global_step_def session_run_def gfile_write_def build_summary_def FileWriterCache_get_def
  add_summary_def flush_def

lemmas comp_defs = service_defs summarize_def

lemmas run0_defs = hook0_def world0_def session100_def GinConfigSaverHook_def
  config_path_def filename_def os_path_join_def startswith_sep_def endswith_sep_def
  str_int_def str_nat.simps digit_char_def no_directory_def os_path_dirname_def rstrip_sep_def

lemma dir_prefixes_self [simp]: "p \<in> set (dir_prefixes p)"
  by (simp add: dir_prefixes_def)

lemma global_step_val_eq:
  "global_step_val session w =
     (case session of
        None \<Rightarrow> Inr 0
      | Some sess \<Rightarrow>
          (case global_step w of
             None \<Rightarrow> Inr 0
           | Some t \<Rightarrow> (case sess t of None \<Rightarrow> Inl SessionRunError | Some v \<Rightarrow> Inr v)), w)"
  by (simp add: global_step_val_def comp_defs split: option.splits)

lemma startswith_sep_filename: "startswith_sep (filename h step) = startswith_sep (base_name h)"
  by (cases "base_name h") (simp_all add: filename_def startswith_sep_def)

lemma plain_join:
  "a \<noteq> [] \<Longrightarrow> \<not> endswith_sep a \<Longrightarrow> \<not> startswith_sep b \<Longrightarrow> os_path_join a b = a @ ''/'' @ b"
  by (simp add: os_path_join_def)

subsection \<open>The directory of the file\<close>








subsection \<open>The method as a straight line\<close>

lemma summarize_eq:
  "summarize markdown h config_str step (h, w) =
    (if SummaryBuildError \<in> failing w then (Inl SummaryBuildError, h, w)
     else if \<not> truth (summary_writer h) \<and> WriterCacheError \<in> failing w
       then (Inl WriterCacheError, h, w)
     else if AddSummaryError \<in> failing w
       then (Inl AddSummaryError, hook_with_writer h, after_fetch h w)
     else if FlushError \<in> failing w
       then (Inl FlushError, hook_with_writer h, after_add markdown h config_str step w)
     else (Inr (), hook_with_writer h, after_flush markdown h config_str step w))"
proof (cases "summary_writer h")
  case None
  then show ?thesis
    by (simp add: summarize_def service_defs text_summary_def writer_in_use_def
        hook_with_writer_def after_fetch_def after_add_def after_flush_def)
next
  case (Some wr)
  then show ?thesis
    by (cases "truth (Some wr)")
      (simp_all add: summarize_def service_defs text_summary_def writer_in_use_def
        hook_with_writer_def after_fetch_def after_add_def after_flush_def)
qed

lemma save_eq:
  "after_create_session markdown session (h, w) =
    (if output_dir h \<notin> dirs w \<and> MakedirsError \<in> failing w then (Inl MakedirsError, h, w)
     else case fst (global_step_val session w) of
       Inl e \<Rightarrow> (Inl e, h, after_makedirs h w)
     | Inr step \<Rightarrow>
        if no_directory (config_path h step) (after_makedirs h w)
          then (Inl NotFoundError, h, after_makedirs h w)
        else if GFileError \<in> failing w then (Inl GFileError, h, after_makedirs h w)
        else if summarize_config h
          then summarize markdown h (operative_config w) step (h, after_write h step w)
        else (Inr (), h, after_write h step w))"
proof (cases "output_dir h \<in> dirs w")
  case True
  then show ?thesis
    by (auto simp add: after_create_session_def global_step_val_eq service_defs after_makedirs_def
        after_write_def split: sum.splits option.splits)
next
  case False
  then show ?thesis
    by (auto simp add: after_create_session_def global_step_val_eq service_defs after_makedirs_def
        after_write_def split: sum.splits option.splits)
qed


lemmas stage_defs = after_makedirs_def after_write_def text_summary_def writer_in_use_def
  hook_with_writer_def after_fetch_def after_add_def after_flush_def

lemma failing_after_write [simp]: "failing (after_write h step w) = failing w"
  by (simp add: after_write_def after_makedirs_def)

lemma gsv_pair: "global_step_val session w = (fst (global_step_val session w), w)"
  by (simp add: global_step_val_eq)

lemma completed:
  assumes "outcome markdown session h w = Inr ()"
  obtains step where "global_step_val session w = (Inr step, w)"
    and "after_create_session markdown session (h, w) =
      (Inr (), if summarize_config h then hook_with_writer h else h,
       if summarize_config h
       then after_flush markdown h (operative_config w) step (after_write h step w)
       else after_write h step w)"
proof (cases "fst (global_step_val session w)")
  case (Inl e)
  with assms show ?thesis
    by (simp add: save_eq split: if_splits)
next
  case (Inr step)
  then have "global_step_val session w = (Inr step, w)"
    using gsv_pair [of session w] by simp
  moreover from assms Inr
  have "after_create_session markdown session (h, w) =
      (Inr (), if summarize_config h then hook_with_writer h else h,
       if summarize_config h
       then after_flush markdown h (operative_config w) step (after_write h step w)
       else after_write h step w)"
    by (auto simp add: save_eq summarize_eq split: if_splits)
  ultimately show ?thesis ..
qed

subsection \<open>Facts used more than once\<close>


lemma str_int_5: "str_int 5 = ''5''"
  by (simp add: str_int_def str_nat.simps digit_char_def)

text \<open>What a completed invocation has done for sure: resolved the step and written the file.\<close>

lemma completed_write:
  assumes "outcome markdown session h w = Inr ()"
  shows "\<exists>step. global_step_val session w = (Inr step, w) \<and>
           files (world_after markdown session h w) =
             (files w)(config_path h step \<mapsto> operative_config w) \<and>
           GFileWrite (config_path h step) (operative_config w)
             \<in> set (trace (world_after markdown session h w))"
  using assms
  by (auto simp add: after_create_session_def global_step_val_eq comp_defs
      split: if_splits sum.splits prod.splits option.splits)

lemma run0_completes: "outcome id (Some session100) hook0 world0 = Inr ()"
  by (simp add: after_create_session_def global_step_val_eq comp_defs run0_defs)

lemma run0_step: "global_step_val (Some session100) world0 = (Inr 100, world0)"
  by (simp add: global_step_val_eq run0_defs)

lemma summarize_keeps_files [simp]:
  "files (snd (snd (summarize markdown h c step (h, w)))) = files w"
  "dirs (snd (snd (summarize markdown h c step (h, w)))) = dirs w"
  by (simp_all add: summarize_eq stage_defs)


lemma files_after:
  "files (world_after markdown session h w) =
     (if (output_dir h \<notin> dirs w \<and> MakedirsError \<in> failing w) \<or> GFileError \<in> failing w
      then files w
      else case fst (global_step_val session w) of
             Inl e \<Rightarrow> files w
           | Inr step \<Rightarrow>
               if no_directory (config_path h step) (after_makedirs h w) then files w
               else (files w)(config_path h step \<mapsto> operative_config w))"
  by (simp add: save_eq after_write_def after_makedirs_def split: sum.splits)

lemma dirs_after:
  "dirs (world_after markdown session h w) =
     (if output_dir h \<in> dirs w \<or> MakedirsError \<in> failing w then dirs w
      else dirs w \<union> set (dir_prefixes (output_dir h)))"
  by (simp add: save_eq after_write_def after_makedirs_def split: sum.splits)

lemma outcome_of_save:
  "outcome markdown session h w =
     (if output_dir h \<notin> dirs w \<and> MakedirsError \<in> failing w then Inl MakedirsError
      else case fst (global_step_val session w) of
             Inl e \<Rightarrow> Inl e
           | Inr step \<Rightarrow>
               if no_directory (config_path h step) (after_makedirs h w) then Inl NotFoundError
               else if GFileError \<in> failing w then Inl GFileError
               else if summarize_config h
                 then fst (summarize markdown h (operative_config w) step (h, after_write h step w))
               else Inr ())"
  by (simp add: save_eq split: sum.splits)

lemma without_summary:
  assumes "\<not> summarize_config h"
  shows "hook_after markdown session h w = h"
    and "writer_cache (world_after markdown session h w) = writer_cache w"
    and "events (world_after markdown session h w) = events w"
    and "unflushed (world_after markdown session h w) = unflushed w"
    and "filter is_summary_call (trace (world_after markdown session h w)) =
      filter is_summary_call (trace w)"
  using assms
  by (simp_all add: save_eq after_write_def after_makedirs_def split: sum.splits)

lemma step_error:
  assumes "fst (global_step_val session w) = Inl e"
  shows "e = SessionRunError"
  using assms by (simp add: global_step_val_eq split: option.splits)

subsection \<open>Fetches of a writer\<close>

lemma cache_gets_failing [simp]: "cache_gets (w\<lparr>failing := fs\<rparr>) = cache_gets w"
  by (simp add: cache_gets_def)

lemma cache_gets_after_makedirs [simp]: "cache_gets (after_makedirs h w) = cache_gets w"
  by (simp add: cache_gets_def after_makedirs_def)

lemma cache_gets_after_write [simp]: "cache_gets (after_write h step w) = cache_gets w"
proof -
  have "cache_gets (after_write h step w) = cache_gets (after_makedirs h w)"
    by (simp add: cache_gets_def after_write_def)
  then show ?thesis by simp
qed

lemma cache_gets_after_fetch [simp]:
  "cache_gets (after_fetch h w) = (if truth (summary_writer h) then cache_gets w else Suc (cache_gets w))"
  by (simp add: cache_gets_def after_fetch_def)

lemma cache_gets_after_add [simp]:
  "cache_gets (after_add markdown h c step w) = cache_gets (after_fetch h w)"
  by (simp add: cache_gets_def after_add_def)

lemma cache_gets_after_flush [simp]:
  "cache_gets (after_flush markdown h c step w) = cache_gets (after_fetch h w)"
proof -
  have "cache_gets (after_flush markdown h c step w) = cache_gets (after_add markdown h c step w)"
    by (simp add: cache_gets_def after_flush_def)
  then show ?thesis by simp
qed

lemma summarize_writer:
  "fst (snd (summarize markdown h c step (h, w))) = h \<and>
   cache_gets (snd (snd (summarize markdown h c step (h, w)))) = cache_gets w \<or>
   fst (snd (summarize markdown h c step (h, w))) = hook_with_writer h \<and>
   cache_gets (snd (snd (summarize markdown h c step (h, w)))) = cache_gets (after_fetch h w)"
  by (simp add: summarize_eq)


lemma one_invocation:
  "hook_after markdown session h w = h \<and>
   cache_gets (world_after markdown session h w) = cache_gets w \<or>
   hook_after markdown session h w = hook_with_writer h \<and>
   cache_gets (world_after markdown session h w) =
     (if truth (summary_writer h) then cache_gets w else Suc (cache_gets w))"
proof (cases "fst (global_step_val session w)")
  case (Inl e)
  then show ?thesis
    by (simp add: save_eq)
next
  case (Inr step)
  show ?thesis
  proof (cases "summarize_config h \<and> GFileError \<notin> failing w \<and>
      \<not> no_directory (config_path h step) (after_makedirs h w) \<and>
      (output_dir h \<in> dirs w \<or> MakedirsError \<notin> failing w)")
    case True
    with Inr have "after_create_session markdown session (h, w) =
        summarize markdown h (operative_config w) step (h, after_write h step w)"
      by (auto simp add: save_eq)
    with summarize_writer [of markdown h "operative_config w" step "after_write h step w"]
    show ?thesis
      by (cases "truth (summary_writer h)") auto
  next
    case False
    with Inr show ?thesis
      by (auto simp add: save_eq)
  qed
qed

lemma fetched:
  assumes "summarize_config h" and "\<not> truth (summary_writer h)"
    and "outcome markdown session h w \<in> {Inr (), Inl AddSummaryError, Inl FlushError}"
  shows "summary_writer (hook_after markdown session h w) = Some (CachedWriter (output_dir h)) \<and>
     cache_gets (world_after markdown session h w) = Suc (cache_gets w)"
proof (cases "fst (global_step_val session w)")
  case (Inl e)
  then have "e = SessionRunError"
    by (rule step_error)
  with Inl assms(3) show ?thesis
    by (auto simp add: outcome_of_save split: if_splits)
next
  case (Inr step)
  let ?s = "summarize markdown h (operative_config w) step (h, after_write h step w)"
  from Inr assms(1,3) have run: "after_create_session markdown session (h, w) = ?s"
    by (auto simp add: save_eq split: if_splits)
  with assms(3) have "fst ?s \<in> {Inr (), Inl AddSummaryError, Inl FlushError}"
    by simp
  with assms(2) have "fst (snd ?s) = hook_with_writer h \<and>
      cache_gets (snd (snd ?s)) = Suc (cache_gets w)"
    by (auto simp add: summarize_eq split: if_splits)
  with run assms(2) show ?thesis
    by (simp add: hook_with_writer_def)
qed


lemma invocations_true:
  "truth (summary_writer h) \<Longrightarrow>
     fst (invocations markdown calls (h, w)) = h \<and>
     cache_gets (snd (invocations markdown calls (h, w))) = cache_gets w"
proof (induction calls arbitrary: w)
  case Nil
  then show ?case by simp
next
  case (Cons c calls)
  obtain session fs where c: "c = (session, fs)"
    by (cases c)
  let ?w = "w\<lparr>failing := fs\<rparr>"
  from Cons.prems one_invocation [of markdown session h ?w]
  have same: "hook_after markdown session h ?w = h"
    "cache_gets (world_after markdown session h ?w) = cache_gets w"
    by (auto simp add: hook_with_writer_def)
  have "invocations markdown (c # calls) (h, w) =
      invocations markdown calls (hook_after markdown session h ?w, world_after markdown session h ?w)"
    by (simp add: c)
  with same Cons.IH [OF Cons.prems, of "world_after markdown session h ?w"]
  show ?case by simp
qed

lemma invocations_bound:
  "cache_gets (snd (invocations markdown calls (h, w))) \<le> Suc (cache_gets w)"
proof (induction calls arbitrary: h w)
  case Nil
  then show ?case by simp
next
  case (Cons c calls)
  obtain session fs where c: "c = (session, fs)"
    by (cases c)
  let ?w = "w\<lparr>failing := fs\<rparr>"
  let ?h' = "hook_after markdown session h ?w"
  let ?w' = "world_after markdown session h ?w"
  have unfold: "invocations markdown (c # calls) (h, w) = invocations markdown calls (?h', ?w')"
    by (simp add: c)
  show ?case
  proof (cases "truth (summary_writer ?h')")
    case True
    from invocations_true [OF True, of markdown calls ?w']
    have "cache_gets (snd (invocations markdown (c # calls) (h, w))) = cache_gets ?w'"
      by (simp add: unfold)
    moreover from one_invocation [of markdown session h ?w]
    have "cache_gets ?w' \<le> Suc (cache_gets w)"
      by (auto split: if_splits)
    ultimately show ?thesis by simp
  next
    case False
    with one_invocation [of markdown session h ?w]
    have "cache_gets ?w' = cache_gets w"
      by (auto simp add: hook_with_writer_def split: if_splits)
    with Cons.IH [of ?h' ?w'] show ?thesis
      by (simp add: unfold)
  qed
qed

lemma reused:
  assumes "summary_writer h = Some wr" and "truth (Some wr)"
    and "summarize_config h" and "outcome markdown session h w = Inr ()"
  shows "length (events (world_after markdown session h w) wr) = Suc (length (events w wr)) \<and>
     last (trace (world_after markdown session h w)) = Flush wr"
proof -
  from assms(4) obtain step where
    "after_create_session markdown session (h, w) =
      (Inr (), if summarize_config h then hook_with_writer h else h,
       if summarize_config h
       then after_flush markdown h (operative_config w) step (after_write h step w)
       else after_write h step w)"
    by (rule completed)
  with assms(1-3) show ?thesis
    by (simp add: after_flush_def after_add_def after_write_def after_makedirs_def
        writer_in_use_def)
qed

subsection \<open>The written file\<close>

text \<open>
  C1. When an invocation of \<open>after_create_session\<close> runs to completion, the step was
  resolved, and the files afterwards are the files before with the one at the path
  \<open>os.path.join(output_dir, filename)\<close> holding exactly the operative configuration text
  read at the start of the call: whatever the file held before is gone, and no other file
  is touched. For a directory that is not empty and has no trailing separator and a base
  name with no leading separator, that path is \<open>output_dir/filename\<close>.
\<close>

theorem saved_file_holds_operative_config:
  assumes "outcome markdown session h w = Inr ()"
  shows "\<exists>step. global_step_val session w = (Inr step, w) \<and>
           files (world_after markdown session h w) =
             (files w)(os_path_join (output_dir h) (filename h step) \<mapsto> operative_config w) \<and>
           (output_dir h \<noteq> [] \<and> \<not> endswith_sep (output_dir h) \<and> \<not> startswith_sep (base_name h) \<longrightarrow>
              files (world_after markdown session h w) (output_dir h @ ''/'' @ filename h step) =
                Some (operative_config w))"
proof -
  from completed_write [OF assms] obtain step where
    step: "global_step_val session w = (Inr step, w)" and
    written: "files (world_after markdown session h w) =
      (files w)(os_path_join (output_dir h) (filename h step) \<mapsto> operative_config w)"
    by (auto simp add: config_path_def)
  have "files (world_after markdown session h w) (output_dir h @ ''/'' @ filename h step) =
          Some (operative_config w)"
    if "output_dir h \<noteq> []" "\<not> endswith_sep (output_dir h)" "\<not> startswith_sep (base_name h)"
    using that written by (simp add: plain_join startswith_sep_filename)
  with step written show ?thesis by blast
qed

theorem saved_file_holds_operative_config_witness:
  "outcome id (Some session100) hook0
     (world0\<lparr>files := [''/tmp/run1/operative_config-100.gin'' \<mapsto> ''old'']\<rparr>) = Inr () \<and>
   files (world_after id (Some session100) hook0
     (world0\<lparr>files := [''/tmp/run1/operative_config-100.gin'' \<mapsto> ''old'']\<rparr>))
     ''/tmp/run1/operative_config-100.gin'' = Some ''a.b = 1''"
proof -
  let ?w = "world0\<lparr>files := [''/tmp/run1/operative_config-100.gin'' \<mapsto> ''old'']\<rparr>"
  have completes: "outcome id (Some session100) hook0 ?w = Inr ()"
    by (simp add: after_create_session_def global_step_val_eq comp_defs run0_defs)
  have step: "global_step_val (Some session100) ?w = (Inr 100, ?w)"
    by (simp add: global_step_val_eq run0_defs)
  from saved_file_holds_operative_config [OF completes] step
  have "files (world_after id (Some session100) hook0 ?w) =
          (files ?w)(os_path_join (output_dir hook0) (filename hook0 100) \<mapsto> operative_config ?w)"
    by auto
  then have "files (world_after id (Some session100) hook0 ?w)
      ''/tmp/run1/operative_config-100.gin'' = Some ''a.b = 1''"
    by (simp add: run0_defs)
  with completes show ?thesis by simp
qed

subsection \<open>The name of the file\<close>

text \<open>
  C2. With \<open>include_step_in_filename\<close> the name of the file is the base name, a hyphen,
  the step in decimal and \<open>.gin\<close>, so \<open>base_name-5.gin\<close> at step 5; without it the name is
  the base name and \<open>.gin\<close> whatever the step. A completed invocation writes the file of
  that name, joined to the output directory, at the step it resolved.
\<close>

theorem filename_with_and_without_step:
  "(include_step_in_filename h \<longrightarrow>
      filename h step = base_name h @ ''-'' @ str_int step @ ''.gin'' \<and>
      filename h 5 = base_name h @ ''-5.gin'') \<and>
   (\<not> include_step_in_filename h \<longrightarrow> filename h step = base_name h @ ''.gin'') \<and>
   (outcome markdown session h w = Inr () \<and> global_step_val session w = (Inr step, w) \<longrightarrow>
      GFileWrite (os_path_join (output_dir h) (filename h step)) (operative_config w)
        \<in> set (trace (world_after markdown session h w)))"
proof (intro conjI impI)
  assume "include_step_in_filename h"
  then show "filename h step = base_name h @ ''-'' @ str_int step @ ''.gin''"
    by (simp add: filename_def)
  from \<open>include_step_in_filename h\<close> show "filename h 5 = base_name h @ ''-5.gin''"
    by (simp add: filename_def str_int_5)
next
  assume "\<not> include_step_in_filename h"
  then show "filename h step = base_name h @ ''.gin''"
    by (simp add: filename_def)
next
  assume run: "outcome markdown session h w = Inr () \<and> global_step_val session w = (Inr step, w)"
  with completed_write [of markdown session h w]
  show "GFileWrite (os_path_join (output_dir h) (filename h step)) (operative_config w)
        \<in> set (trace (world_after markdown session h w))"
    by (auto simp add: config_path_def)
qed

theorem filename_with_and_without_step_witness:
  "filename hook0 5 = ''operative_config-5.gin'' \<and>
   filename (hook0\<lparr>include_step_in_filename := False\<rparr>) 5 = ''operative_config.gin'' \<and>
   GFileWrite ''/tmp/run1/operative_config-100.gin'' ''a.b = 1''
     \<in> set (trace (world_after id (Some session100) hook0 world0))"
proof -
  have inc: "include_step_in_filename hook0" and base: "base_name hook0 = ''operative_config''"
    by (simp_all add: hook0_def GinConfigSaverHook_def)
  from filename_with_and_without_step [of hook0 5 id "Some session100" world0] inc
  have "filename hook0 5 = base_name hook0 @ ''-5.gin''"
    by blast
  with base have a: "filename hook0 5 = ''operative_config-5.gin''"
    by simp
  have "\<not> include_step_in_filename (hook0\<lparr>include_step_in_filename := False\<rparr>)"
    by simp
  with filename_with_and_without_step
      [of "hook0\<lparr>include_step_in_filename := False\<rparr>" 5 id "Some session100" world0]
  have "filename (hook0\<lparr>include_step_in_filename := False\<rparr>) 5 =
          base_name (hook0\<lparr>include_step_in_filename := False\<rparr>) @ ''.gin''"
    by blast
  with base have b:
    "filename (hook0\<lparr>include_step_in_filename := False\<rparr>) 5 = ''operative_config.gin''"
    by simp
  from filename_with_and_without_step [of hook0 100 id "Some session100" world0]
    run0_completes run0_step
  have "GFileWrite (os_path_join (output_dir hook0) (filename hook0 100)) (operative_config world0)
     \<in> set (trace (world_after id (Some session100) hook0 world0))"
    by blast
  moreover have
    "os_path_join (output_dir hook0) (filename hook0 100) = ''/tmp/run1/operative_config-100.gin''"
    and "operative_config world0 = ''a.b = 1''"
    by (simp_all add: run0_defs)
  ultimately have c: "GFileWrite ''/tmp/run1/operative_config-100.gin'' ''a.b = 1''
     \<in> set (trace (world_after id (Some session100) hook0 world0))"
    by simp
  from a b c show ?thesis by simp
qed

subsection \<open>The step\<close>



subsection \<open>The summary\<close>

text \<open>
  C5. With \<open>summarize_config\<close>, a completed invocation adds exactly one summary to the
  writer in use: one value tagged \<open>gin/base_name\<close>, of the text plugin, carrying the
  markdown of the configuration text, at the resolved step. The writer in use is the
  writer of the hook when that is true; otherwise, in particular when none was supplied,
  it is fetched from the cache for the output directory. It is stored on the hook, and it
  is flushed after the addition: the flush is the last call and nothing stays unflushed.
\<close>

theorem summary_appended_and_flushed:
  assumes "summarize_config h" and "outcome markdown session h w = Inr ()"
  shows "\<exists>step.
     global_step_val session w = (Inr step, w) \<and>
     summary_writer (hook_after markdown session h w) = Some (writer_in_use h) \<and>
     (truth (summary_writer h) \<longrightarrow>
        summary_writer h = Some (writer_in_use h) \<and>
        writer_cache (world_after markdown session h w) = writer_cache w) \<and>
     (\<not> truth (summary_writer h) \<longrightarrow>
        writer_in_use h = CachedWriter (output_dir h) \<and>
        writer_cache (world_after markdown session h w) = insert (output_dir h) (writer_cache w)) \<and>
     events (world_after markdown session h w) =
       (events w)(writer_in_use h := events w (writer_in_use h) @
          [([\<lparr>tag = ''gin/'' @ base_name h, plugin_name = ''text'', plugin_content = ''{}'',
              tensor_proto = markdown (operative_config w)\<rparr>], step)]) \<and>
     unflushed (world_after markdown session h w) (writer_in_use h) = 0 \<and>
     trace (world_after markdown session h w) =
       trace w @ (if output_dir h \<in> dirs w then [] else [Makedirs (output_dir h)]) @
       [GFileWrite (config_path h step) (operative_config w)] @
       (if truth (summary_writer h) then [] else [CacheGet (output_dir h)]) @
       [AddSummary (writer_in_use h)
          [\<lparr>tag = ''gin/'' @ base_name h, plugin_name = ''text'', plugin_content = ''{}'',
            tensor_proto = markdown (operative_config w)\<rparr>] step,
        Flush (writer_in_use h)]"
proof -
  from assms(2) obtain step where step: "global_step_val session w = (Inr step, w)"
    and run: "after_create_session markdown session (h, w) =
      (Inr (), if summarize_config h then hook_with_writer h else h,
       if summarize_config h
       then after_flush markdown h (operative_config w) step (after_write h step w)
       else after_write h step w)"
    by (rule completed)
  show ?thesis
  proof (intro exI [of _ step] conjI impI)
    show "global_step_val session w = (Inr step, w)" by (rule step)
  qed (use assms(1) run in \<open>auto simp add: stage_defs split: option.splits\<close>)
qed

theorem summary_appended_and_flushed_witness:
  "summarize_config hook0 \<and>
   outcome id (Some session100) hook0 world0 = Inr () \<and>
   summary_writer (hook_after id (Some session100) hook0 world0) =
     Some (CachedWriter ''/tmp/run1'') \<and>
   writer_cache (world_after id (Some session100) hook0 world0) = {''/tmp/run1''} \<and>
   events (world_after id (Some session100) hook0 world0) (CachedWriter ''/tmp/run1'') =
     [([\<lparr>tag = ''gin/operative_config'', plugin_name = ''text'', plugin_content = ''{}'',
         tensor_proto = ''a.b = 1''\<rparr>], 100)] \<and>
   unflushed (world_after id (Some session100) hook0 world0) (CachedWriter ''/tmp/run1'') = 0 \<and>
   trace (world_after id (Some session100) hook0 world0) =
     [Makedirs ''/tmp/run1'',
      GFileWrite ''/tmp/run1/operative_config-100.gin'' ''a.b = 1'',
      CacheGet ''/tmp/run1'',
      AddSummary (CachedWriter ''/tmp/run1'')
        [\<lparr>tag = ''gin/operative_config'', plugin_name = ''text'', plugin_content = ''{}'',
          tensor_proto = ''a.b = 1''\<rparr>] 100,
      Flush (CachedWriter ''/tmp/run1'')]"
proof -
  have on: "summarize_config hook0"
    by (simp add: hook0_def GinConfigSaverHook_def)
  have wr: "writer_in_use hook0 = CachedWriter ''/tmp/run1''"
    by (simp add: writer_in_use_def hook0_def GinConfigSaverHook_def)
  from summary_appended_and_flushed [OF on run0_completes] run0_step wr
  show ?thesis
    using on run0_completes by (auto simp add: run0_defs)
qed

subsection \<open>Without the summary\<close>

text \<open>
  C6. Without \<open>summarize_config\<close> an invocation leaves the hook object, the cache of
  writers and the events and unflushed counts of every writer as they were, and makes no
  call to the cache or to a writer. The files and the directories after it are those after
  the same invocation with \<open>summarize_config\<close>: it completes whenever that one does, and
  when it fails, that one fails with the same error.
\<close>

theorem no_summary_when_disabled:
  assumes "\<not> summarize_config h"
  shows "hook_after markdown session h w = h \<and>
     writer_cache (world_after markdown session h w) = writer_cache w \<and>
     events (world_after markdown session h w) = events w \<and>
     unflushed (world_after markdown session h w) = unflushed w \<and>
     filter is_summary_call (trace (world_after markdown session h w)) =
       filter is_summary_call (trace w) \<and>
     files (world_after markdown session h w) =
       files (world_after markdown session (h\<lparr>summarize_config := True\<rparr>) w) \<and>
     dirs (world_after markdown session h w) =
       dirs (world_after markdown session (h\<lparr>summarize_config := True\<rparr>) w) \<and>
     (outcome markdown session (h\<lparr>summarize_config := True\<rparr>) w = Inr () \<longrightarrow>
        outcome markdown session h w = Inr ()) \<and>
     (\<forall>e. outcome markdown session h w = Inl e \<longrightarrow>
        outcome markdown session (h\<lparr>summarize_config := True\<rparr>) w = Inl e)"
proof -
  let ?on = "h\<lparr>summarize_config := True\<rparr>"
  have same_path: "config_path ?on step = config_path h step" for step
    by (simp add: config_path_def filename_def)
  have same_stage: "after_makedirs ?on w = after_makedirs h w"
    by (simp add: after_makedirs_def)
  have same_files: "files (world_after markdown session h w) =
      files (world_after markdown session ?on w)"
    by (simp add: files_after same_path same_stage split: sum.splits)
  have same_dirs: "dirs (world_after markdown session h w) =
      dirs (world_after markdown session ?on w)"
    by (simp add: dirs_after)
  have ok: "outcome markdown session h w = Inr ()"
    if "outcome markdown session ?on w = Inr ()"
    using that assms
    by (auto simp add: outcome_of_save [of markdown session h] outcome_of_save [of markdown session ?on]
        same_path same_stage split: if_splits sum.splits)
  have err: "outcome markdown session ?on w = Inl e"
    if "outcome markdown session h w = Inl e" for e
    using that assms
    by (auto simp add: outcome_of_save [of markdown session h] outcome_of_save [of markdown session ?on]
        same_path same_stage split: if_splits sum.splits)
  from without_summary [OF assms, of markdown session w] same_files same_dirs ok err
  show ?thesis by blast
qed

theorem no_summary_when_disabled_witness:
  "\<not> summarize_config (hook0\<lparr>summarize_config := False\<rparr>) \<and>
   hook_after id (Some session100) (hook0\<lparr>summarize_config := False\<rparr>) world0 =
     hook0\<lparr>summarize_config := False\<rparr> \<and>
   writer_cache (world_after id (Some session100) (hook0\<lparr>summarize_config := False\<rparr>) world0) = {} \<and>
   filter is_summary_call
     (trace (world_after id (Some session100) (hook0\<lparr>summarize_config := False\<rparr>) world0)) = [] \<and>
   files (world_after id (Some session100) (hook0\<lparr>summarize_config := False\<rparr>) world0)
     ''/tmp/run1/operative_config-100.gin'' = Some ''a.b = 1'' \<and>
   outcome id (Some session100) (hook0\<lparr>summarize_config := False\<rparr>) world0 = Inr ()"
proof -
  let ?off = "hook0\<lparr>summarize_config := False\<rparr>"
  have off: "\<not> summarize_config ?off"
    by simp
  have on: "?off\<lparr>summarize_config := True\<rparr> = hook0"
    by (simp add: hook0_def GinConfigSaverHook_def)
  have written: "files (world_after id (Some session100) hook0 world0)
      ''/tmp/run1/operative_config-100.gin'' = Some ''a.b = 1''"
    by (simp add: files_after global_step_val_eq after_makedirs_def run0_defs)
  from no_summary_when_disabled [OF off, of id "Some session100" world0] on run0_completes written
  show ?thesis
    by (simp add: world0_def)
qed

subsection \<open>The output directory\<close>




subsection \<open>A failure of the summary\<close>

text \<open>
  C10. When an invocation raises in building the summary, in fetching the writer, in
  adding the summary or in flushing, the step was resolved and the file at
  \<open>os.path.join(output_dir, filename)\<close> holds the whole configuration text, the other files
  being as before. The write precedes every call to the cache or to a writer: of the
  calls of the invocation, those before the first such call are the creation of the
  directory, if it was missing, and the write.
\<close>

theorem summary_failure_after_write:
  assumes "outcome markdown session h w = Inl e"
    and "e \<in> {SummaryBuildError, WriterCacheError, AddSummaryError, FlushError}"
  shows "\<exists>step. global_step_val session w = (Inr step, w) \<and>
     files (world_after markdown session h w) =
       (files w)(os_path_join (output_dir h) (filename h step) \<mapsto> operative_config w) \<and>
     takeWhile (\<lambda>c. \<not> is_summary_call c) (drop (length (trace w)) (trace (world_after markdown session h w))) =
       (if output_dir h \<in> dirs w then [] else [Makedirs (output_dir h)]) @
       [GFileWrite (os_path_join (output_dir h) (filename h step)) (operative_config w)]"
proof (cases "fst (global_step_val session w)")
  case (Inl e')
  then have "e' = SessionRunError"
    by (rule step_error)
  with Inl assms show ?thesis
    by (auto simp add: outcome_of_save split: if_splits)
next
  case (Inr step)
  then have "global_step_val session w = (Inr step, w)"
    using gsv_pair [of session w] by simp
  moreover from assms Inr have
    "files (world_after markdown session h w) =
       (files w)(os_path_join (output_dir h) (filename h step) \<mapsto> operative_config w) \<and>
     takeWhile (\<lambda>c. \<not> is_summary_call c) (drop (length (trace w)) (trace (world_after markdown session h w))) =
       (if output_dir h \<in> dirs w then [] else [Makedirs (output_dir h)]) @
       [GFileWrite (os_path_join (output_dir h) (filename h step)) (operative_config w)]"
    by (auto simp add: save_eq summarize_eq stage_defs config_path_def split: if_splits)
  ultimately show ?thesis by blast
qed

theorem summary_failure_after_write_witness:
  "outcome id (Some session100) hook0 (world0\<lparr>failing := {FlushError}\<rparr>) = Inl FlushError \<and>
   files (world_after id (Some session100) hook0 (world0\<lparr>failing := {FlushError}\<rparr>))
     ''/tmp/run1/operative_config-100.gin'' = Some ''a.b = 1'' \<and>
   takeWhile (\<lambda>c. \<not> is_summary_call c)
     (trace (world_after id (Some session100) hook0 (world0\<lparr>failing := {FlushError}\<rparr>))) =
     [Makedirs ''/tmp/run1'', GFileWrite ''/tmp/run1/operative_config-100.gin'' ''a.b = 1'']"
proof -
  let ?w = "world0\<lparr>failing := {FlushError}\<rparr>"
  have raised: "outcome id (Some session100) hook0 ?w = Inl FlushError"
    by (simp add: save_eq summarize_eq global_step_val_eq stage_defs run0_defs)
  have kind: "FlushError \<in> {SummaryBuildError, WriterCacheError, AddSummaryError, FlushError}"
    by simp
  have step: "global_step_val (Some session100) ?w = (Inr 100, ?w)"
    by (simp add: global_step_val_eq run0_defs)
  from summary_failure_after_write [OF raised kind] step raised
  show ?thesis
    by (auto simp add: run0_defs)
qed

subsection \<open>The writer of the hook\<close>

text \<open>
  C9. The test on the stored writer is a test of its truth value. With
  \<open>summarize_config\<close>, a stored writer that is not true, \<open>None\<close> or an object supplied at
  construction whose truth value is false, is replaced by the writer that the cache
  returns for the output directory, in every invocation that gets as far as adding the
  summary. A stored writer that is true is used as it is: the summary goes to it, it is
  the one flushed, and over any number of invocations the hook object stays the same and
  the cache is not asked. Whatever the hook holds at first, over any number of invocations
  the cache returns a writer to it at most once.
\<close>

theorem writer_fetched_once_and_reused:
  "(summarize_config h \<and> \<not> truth (summary_writer h) \<and>
    outcome markdown session h w \<in> {Inr (), Inl AddSummaryError, Inl FlushError} \<longrightarrow>
      summary_writer (hook_after markdown session h w) = Some (CachedWriter (output_dir h)) \<and>
      cache_gets (world_after markdown session h w) = Suc (cache_gets w)) \<and>
   \<not> truth None \<and> \<not> truth (Some (SuppliedWriter i False)) \<and>
   (summary_writer h = Some wr \<and> truth (Some wr) \<and> summarize_config h \<and>
    outcome markdown session h w = Inr () \<longrightarrow>
      length (events (world_after markdown session h w) wr) = Suc (length (events w wr)) \<and>
      last (trace (world_after markdown session h w)) = Flush wr) \<and>
   (truth (summary_writer h) \<longrightarrow>
      fst (invocations markdown calls (h, w)) = h \<and>
      cache_gets (snd (invocations markdown calls (h, w))) = cache_gets w) \<and>
   cache_gets (snd (invocations markdown calls (h, w))) \<le> Suc (cache_gets w)"
  using fetched [of h markdown session w] reused [of h wr markdown session w]
    invocations_true [of h markdown calls w] invocations_bound [of markdown calls h w]
  by simp

theorem writer_fetched_once_and_reused_witness:
  "summary_writer (hook_after id (Some session100)
     (hook0\<lparr>summary_writer := Some (SuppliedWriter 7 False)\<rparr>) world0) =
     Some (CachedWriter ''/tmp/run1'') \<and>
   cache_gets (world_after id (Some session100)
     (hook0\<lparr>summary_writer := Some (SuppliedWriter 7 False)\<rparr>) world0) = 1 \<and>
   fst (invocations id [(Some session100, {}), (None, {FlushError})]
     (hook0\<lparr>summary_writer := Some (SuppliedWriter 3 True)\<rparr>, world0)) =
     hook0\<lparr>summary_writer := Some (SuppliedWriter 3 True)\<rparr> \<and>
   cache_gets (snd (invocations id [(Some session100, {}), (None, {FlushError})] (hook0, world0))) \<le> 1"
proof -
  let ?falsy = "hook0\<lparr>summary_writer := Some (SuppliedWriter 7 False)\<rparr>"
  let ?truthy = "hook0\<lparr>summary_writer := Some (SuppliedWriter 3 True)\<rparr>"
  let ?calls = "[(Some session100, {}), (None, {FlushError})]"
  have none_yet: "cache_gets world0 = 0"
    by (simp add: cache_gets_def world0_def)
  have "summarize_config ?falsy \<and> \<not> truth (summary_writer ?falsy) \<and>
      outcome id (Some session100) ?falsy world0 \<in> {Inr (), Inl AddSummaryError, Inl FlushError}"
    by (simp add: save_eq summarize_eq global_step_val_eq after_makedirs_def run0_defs)
  with writer_fetched_once_and_reused [of ?falsy id "Some session100" world0]
  have a: "summary_writer (hook_after id (Some session100) ?falsy world0) =
        Some (CachedWriter (output_dir ?falsy)) \<and>
      cache_gets (world_after id (Some session100) ?falsy world0) = Suc (cache_gets world0)"
    by blast
  have "truth (summary_writer ?truthy)"
    by simp
  with writer_fetched_once_and_reused [of ?truthy id "Some session100" world0 _ _ ?calls]
  have b: "fst (invocations id ?calls (?truthy, world0)) = ?truthy"
    by blast
  from writer_fetched_once_and_reused [of hook0 id "Some session100" world0 _ _ ?calls]
  have c: "cache_gets (snd (invocations id ?calls (hook0, world0))) \<le> Suc (cache_gets world0)"
    by blast
  from a b c none_yet show ?thesis
    by (simp add: hook0_def GinConfigSaverHook_def)
qed

section \<open>Properties of singleton_per_graph\<close>

lemma registered_stays:
  assumes "singletons s k = Some v"
  shows "singletons (snd (singleton_per_graph c s)) k = Some v"
  using assms
proof (cases "singletons s (current_scope_str s, default_graph s)")
  case None
  with assms have other: "k \<noteq> (current_scope_str s, default_graph s)"
    by auto
  obtain r u where made: "c (user s) = (r, u)"
    by (cases "c (user s)")
  with None other assms show ?thesis
    by (cases r) (simp_all add: singleton_per_graph_def singleton_value_def)
next
  case (Some x)
  with assms show ?thesis
    by (simp add: singleton_per_graph_def singleton_value_def)
qed

lemma request_keeps:
  assumes "singletons s k = Some v"
  shows "singletons (request r s) k = Some v"
proof -
  obtain scope g c where r: "r = (scope, g, c)"
    by (cases r)
  from assms have "singletons (s\<lparr>current_scope_str := scope, default_graph := g\<rparr>) k = Some v"
    by simp
  then show ?thesis
    unfolding request_def r by (simp add: registered_stays)
qed

lemma requests_keep:
  "singletons s k = Some v \<Longrightarrow> singletons (requests rs s) k = Some v"
proof (induction rs arbitrary: s)
  case Nil
  then show ?case by (simp add: requests_def)
next
  case (Cons r rs)
  from Cons.prems have "singletons (request r s) k = Some v"
    by (rule request_keeps)
  from Cons.IH [OF this] show ?case
    by (simp add: requests_def)
qed

lemma first_call:
  assumes "singletons s (current_scope_str s, default_graph s) = None"
    and "constructor (user s) = (Inr v, u)"
  shows "singleton_per_graph constructor s =
    (Inr v, s\<lparr>singletons := (singletons s)((current_scope_str s, default_graph s) \<mapsto> v),
               user := u, constructed := Suc (constructed s)\<rparr>)"
  using assms by (simp add: singleton_per_graph_def singleton_value_def)

lemma later_call:
  assumes "singletons t (current_scope_str t, default_graph t) = Some v"
  shows "singleton_per_graph c t = (Inr v, t)"
  using assms by (simp add: singleton_per_graph_def singleton_value_def)

subsection \<open>One instance for a scope and a graph\<close>

text \<open>
  C4. When nothing is registered for the current scope string and default graph and the
  constructor returns, the first call of \<open>singleton_per_graph\<close> invokes the constructor,
  once, and stores what it returned in the registry under that pair. After that, whatever
  else is asked of the registry in between, every call in the same scope and graph, with
  any constructor, returns the stored instance and leaves the whole state as it is: the
  constructor is not invoked.
\<close>

theorem singleton_constructed_once:
  assumes "singletons s (current_scope_str s, default_graph s) = None"
    and "constructor (user s) = (Inr v, u)"
  shows "singleton_per_graph constructor s =
      (Inr v, s\<lparr>singletons := (singletons s)((current_scope_str s, default_graph s) \<mapsto> v),
                 user := u, constructed := Suc (constructed s)\<rparr>) \<and>
    singleton_per_graph c'
      (in_scope (current_scope_str s) (default_graph s)
         (requests rs (snd (singleton_per_graph constructor s)))) =
      (Inr v, in_scope (current_scope_str s) (default_graph s)
         (requests rs (snd (singleton_per_graph constructor s))))"
proof
  show first: "singleton_per_graph constructor s =
      (Inr v, s\<lparr>singletons := (singletons s)((current_scope_str s, default_graph s) \<mapsto> v),
                 user := u, constructed := Suc (constructed s)\<rparr>)"
    using assms by (rule first_call)
  let ?key = "(current_scope_str s, default_graph s)"
  let ?s1 = "snd (singleton_per_graph constructor s)"
  let ?t = "in_scope (current_scope_str s) (default_graph s) (requests rs ?s1)"
  from first have "singletons ?s1 ?key = Some v"
    by simp
  then have "singletons (requests rs ?s1) ?key = Some v"
    by (rule requests_keep)
  then have "singletons ?t (current_scope_str ?t, default_graph ?t) = Some v"
    by (simp add: in_scope_def)
  then show "singleton_per_graph c' ?t = (Inr v, ?t)"
    by (rule later_call)
qed

theorem singleton_constructed_once_witness:
  "fst (singleton_per_graph fresh_object gin0) = Inr 0 \<and>
   constructed (snd (singleton_per_graph fresh_object gin0)) = 1 \<and>
   singletons (snd (singleton_per_graph fresh_object gin0)) (''train'', 1) = Some 0 \<and>
   fst (singleton_per_graph fresh_object
     (in_scope ''train'' 1
        (requests [(''eval'', 3, fresh_object)] (snd (singleton_per_graph fresh_object gin0))))) = Inr 0 \<and>
   constructed (snd (singleton_per_graph fresh_object
     (in_scope ''train'' 1
        (requests [(''eval'', 3, fresh_object)] (snd (singleton_per_graph fresh_object gin0)))))) = 2"
proof -
  let ?rs = "[(''eval'', 3::nat, fresh_object)]"
  have unregistered: "singletons gin0 (current_scope_str gin0, default_graph gin0) = None"
    by (simp add: gin0_def)
  have made: "fresh_object (user gin0) = (Inr 0, 1)"
    by (simp add: fresh_object_def gin0_def)
  note once = singleton_constructed_once [of gin0 fresh_object 0 1 fresh_object ?rs,
      OF unregistered made]
  from once have first: "singleton_per_graph fresh_object gin0 =
      (Inr 0, gin0\<lparr>singletons := (singletons gin0)((current_scope_str gin0, default_graph gin0) \<mapsto> 0),
                    user := 1, constructed := Suc (constructed gin0)\<rparr>)"
    by blast
  from once have later: "singleton_per_graph fresh_object
      (in_scope (current_scope_str gin0) (default_graph gin0)
         (requests ?rs (snd (singleton_per_graph fresh_object gin0)))) =
      (Inr 0, in_scope (current_scope_str gin0) (default_graph gin0)
         (requests ?rs (snd (singleton_per_graph fresh_object gin0))))"
    by blast
  have scope: "current_scope_str gin0 = ''train''" "default_graph gin0 = 1"
    by (simp_all add: gin0_def)
  have between: "constructed (requests ?rs (snd (singleton_per_graph fresh_object gin0))) = 2"
    by (simp add: first requests_def request_def singleton_per_graph_def singleton_value_def
        fresh_object_def gin0_def)
  from first later scope between show ?thesis
    by (simp add: in_scope_def gin0_def)
qed

subsection \<open>Two graphs\<close>

text \<open>
  C8, as the code has it. For two distinct default graphs with the same scope string,
  neither registered yet, \<open>singleton_per_graph\<close> invokes the constructor once for each
  graph and stores each result under its own pair of scope and graph: the call in the
  second graph returns what its own invocation of the constructor returned, not the
  instance cached for the first. The two instances are distinct exactly when the two
  invocations of the constructor return distinct objects.
\<close>

theorem singleton_per_distinct_graph:
  assumes "g1 \<noteq> g2"
    and "singletons s (current_scope_str s, g1) = None"
    and "singletons s (current_scope_str s, g2) = None"
    and "constructor (user s) = (Inr v1, u1)" and "constructor u1 = (Inr v2, u2)"
  shows "fst (singleton_per_graph constructor (as_default g1 s)) = Inr v1 \<and>
    fst (singleton_per_graph constructor
          (as_default g2 (snd (singleton_per_graph constructor (as_default g1 s))))) = Inr v2 \<and>
    constructed (snd (singleton_per_graph constructor
          (as_default g2 (snd (singleton_per_graph constructor (as_default g1 s)))))) =
      constructed s + 2 \<and>
    singletons (snd (singleton_per_graph constructor
          (as_default g2 (snd (singleton_per_graph constructor (as_default g1 s))))))
      (current_scope_str s, g1) = Some v1 \<and>
    singletons (snd (singleton_per_graph constructor
          (as_default g2 (snd (singleton_per_graph constructor (as_default g1 s))))))
      (current_scope_str s, g2) = Some v2 \<and>
    (fst (singleton_per_graph constructor (as_default g1 s)) \<noteq>
     fst (singleton_per_graph constructor
          (as_default g2 (snd (singleton_per_graph constructor (as_default g1 s)))))) = (v1 \<noteq> v2)"
  using assms
  by (simp add: singleton_per_graph_def singleton_value_def as_default_def)

theorem singleton_per_distinct_graph_witness:
  "fst (singleton_per_graph fresh_object (as_default 1 gin0)) = Inr 0 \<and>
   fst (singleton_per_graph fresh_object
         (as_default 2 (snd (singleton_per_graph fresh_object (as_default 1 gin0))))) = Inr 1 \<and>
   constructed (snd (singleton_per_graph fresh_object
         (as_default 2 (snd (singleton_per_graph fresh_object (as_default 1 gin0)))))) = 2"
proof -
  have graphs: "(1::nat) \<noteq> 2"
    by simp
  have unregistered: "singletons gin0 (current_scope_str gin0, 1) = None"
    "singletons gin0 (current_scope_str gin0, 2) = None"
    by (simp_all add: gin0_def)
  have made: "fresh_object (user gin0) = (Inr 0, 1)" "fresh_object 1 = (Inr 1, 2)"
    by (simp_all add: fresh_object_def gin0_def)
  from singleton_per_distinct_graph [of 1 2 gin0 fresh_object 0 1 1 2,
      OF graphs unregistered made]
  show ?thesis
    by (simp add: gin0_def)
qed

text \<open>
  C8 as it is stated does not hold for every constructor: one that returns the same
  object at each invocation is invoked once for each of the graphs 1 and 2, and both calls
  return that one object.
\<close>

theorem shared_object_counterexample:
  "default_graph (as_default 1 gin0) \<noteq>
     default_graph (as_default 2 (snd (singleton_per_graph (shared_object 7) (as_default 1 gin0)))) \<and>
   fst (singleton_per_graph (shared_object 7) (as_default 1 gin0)) = Inr 7 \<and>
   fst (singleton_per_graph (shared_object 7)
         (as_default 2 (snd (singleton_per_graph (shared_object 7) (as_default 1 gin0))))) = Inr 7 \<and>
   constructed (snd (singleton_per_graph (shared_object 7)
         (as_default 2 (snd (singleton_per_graph (shared_object 7) (as_default 1 gin0)))))) = 2"
  by (simp add: singleton_per_graph_def singleton_value_def as_default_def shared_object_def gin0_def)

end
